theory Spec2Isabelle
  imports Main
begin

section \<open>The C tracer of coverage.py (coverage/tracer.c)\<close>

text \<open>
  The tracer is one C struct and one event handler, \<^verbatim>\<open>Tracer_trace\<close>, that the
  interpreter calls at every call, line, return and exception of the monitored program.
  The embedding keeps the struct as a record, the handler as a function from the struct
  to the updated struct, and everything the handler does to the outside (calling
  \<^verbatim>\<open>should_trace\<close>, calling itself) as a list of effects returned with it.

  What is left out: reference counts (\<^verbatim>\<open>Py_INCREF\<close>, \<^verbatim>\<open>Py_DECREF\<close>), the logging
  macros (both \<^verbatim>\<open>#undef\<close>-ed), and the width of \<^verbatim>\<open>int\<close>: \<^verbatim>\<open>depth\<close> and
  \<^verbatim>\<open>tracenames_alloc\<close> are mathematical integers, so a nesting of more than
  \<open>2^31 - 1\<close> frames (signed overflow, undefined in C) is outside the model.
\<close>

subsection \<open>Python objects\<close>

text \<open>
  The objects \<^verbatim>\<open>should_trace\<close> can hand back. Only the distinction made by
  \<^verbatim>\<open>PyString_Check\<close> matters to the handler.
\<close>

datatype pyobj = PyNone | PyBool bool | PyInt int | PyString string

definition PyString_Check :: "pyobj \<Rightarrow> bool" where
  "PyString_Check ob = (case ob of PyString _ \<Rightarrow> True | _ \<Rightarrow> False)"

text \<open>The two fields of a frame the handler reads: \<^verbatim>\<open>frame->f_code->co_filename\<close>
  and \<^verbatim>\<open>frame->f_lineno\<close>.\<close>

record PyFrameObject =
  co_filename :: string
  f_lineno :: int

text \<open>
  The event kinds, \<^verbatim>\<open>int what\<close>. The constants come from Python's headers; the
  source's comments give 0, 3 and 2 for call, return and line, and its \<^verbatim>\<open>what_sym\<close>
  table puts the exception at 1.
\<close>

definition PyTrace_CALL :: int where "PyTrace_CALL = 0"
definition PyTrace_EXCEPTION :: int where "PyTrace_EXCEPTION = 1"
definition PyTrace_LINE :: int where "PyTrace_LINE = 2"
definition PyTrace_RETURN :: int where "PyTrace_RETURN = 3"

lemmas PyTrace_defs =
  PyTrace_CALL_def PyTrace_EXCEPTION_def PyTrace_LINE_def PyTrace_RETURN_def

subsection \<open>The Tracer struct\<close>

text \<open>
  \<^verbatim>\<open>should_trace\<close> is a Python callable: given the filename and the frame it returns
  an object, or fails (\<open>None\<close>, the C \<^verbatim>\<open>NULL\<close> with an exception set). It is a
  function of its two arguments here.
  \<^verbatim>\<open>data\<close> and \<^verbatim>\<open>should_trace_cache\<close> are Python dicts; the keys of \<^verbatim>\<open>data\<close> are
  the 2-tuples \<^verbatim>\<open>(tracename, lineno)\<close>. \<^verbatim>\<open>tracenames\<close> is the malloc'ed array of
  \<^verbatim>\<open>PyObject *\<close>, \<open>None\<close> for \<^verbatim>\<open>NULL\<close>.
\<close>

record Tracer =
  should_trace :: "string \<Rightarrow> PyFrameObject \<Rightarrow> pyobj option"
  data :: "(pyobj \<times> int) \<rightharpoonup> pyobj"
  should_trace_cache :: "string \<rightharpoonup> pyobj"
  started :: bool
  depth :: int
  tracenames :: "pyobj option list"
  tracenames_alloc :: int

definition TRACENAMES_DELTA :: int where "TRACENAMES_DELTA = 100"

text \<open>
  What the allocator answers to \<^verbatim>\<open>PyMem_Malloc\<close> or \<^verbatim>\<open>PyMem_Realloc\<close>: \<open>None\<close> when
  it fails, otherwise the contents found in the fresh cells (they are not initialised
  by the allocator, so any value can be there), as a function of the cell's index.
\<close>

type_synonym allocation = "(nat \<Rightarrow> pyobj option) option"

text \<open>
  \<^verbatim>\<open>Tracer_init\<close>. In C the three object members start as \<^verbatim>\<open>NULL\<close> and Python code
  assigns them through \<^verbatim>\<open>Tracer_members\<close> before \<^verbatim>\<open>start()\<close>; here they are
  arguments. A failed malloc is the error result.
\<close>

definition Tracer_init ::
  "(string \<Rightarrow> PyFrameObject \<Rightarrow> pyobj option) \<Rightarrow> ((pyobj \<times> int) \<rightharpoonup> pyobj) \<Rightarrow>
   (string \<rightharpoonup> pyobj) \<Rightarrow> allocation \<Rightarrow> Tracer option" where
  "Tracer_init st d c mem =
     (case mem of
        None \<Rightarrow> None
      | Some cells \<Rightarrow>
          Some \<lparr> should_trace = st, data = d, should_trace_cache = c, started = False,
                 depth = - 1,
                 tracenames = map cells [0 ..< nat TRACENAMES_DELTA],
                 tracenames_alloc = TRACENAMES_DELTA \<rparr>)"

subsection \<open>The event handler\<close>

text \<open>
  What a run of the handler does, in the order in which it does it: \<open>Asked f r\<close> is one
  call of \<^verbatim>\<open>should_trace\<close> for filename \<open>f\<close> with its outcome \<open>r\<close>; \<open>Cached f r\<close> is
  the \<^verbatim>\<open>PyDict_SetItem\<close> that puts \<open>r\<close> into the cache under \<open>f\<close>; \<open>Stored i v\<close> is
  the assignment of \<open>v\<close> to \<^verbatim>\<open>tracenames[i]\<close>; \<open>Reentered w\<close> is one call of
  \<^verbatim>\<open>Tracer_trace\<close> by itself with event kind \<open>w\<close>.
\<close>

datatype effect =
  Asked string "pyobj option" | Cached string pyobj | Stored int "pyobj option" | Reentered int

text \<open>
  \<^verbatim>\<open>strstr(haystack, needle) != NULL\<close>. Both arguments are C strings: what
  \<^verbatim>\<open>PyString_AS_STRING\<close> hands over is the buffer of the Python string, and \<^verbatim>\<open>strstr\<close>
  reads it up to the first NUL byte only. \<open>c_string\<close> is that part of the buffer,
  \<open>occurs_in\<close> the search for the needle at each position of the haystack.
\<close>

definition c_string :: "string \<Rightarrow> string" where
  "c_string s = takeWhile (\<lambda>c. c \<noteq> CHR 0x00) s"

fun occurs_in :: "string \<Rightarrow> string \<Rightarrow> bool" where
  "occurs_in [] needle = (needle = [])"
| "occurs_in (c # cs) needle =
     (take (length needle) (c # cs) = needle \<or> occurs_in cs needle)"

definition strstr :: "string \<Rightarrow> string \<Rightarrow> bool" where
  "strstr haystack needle = occurs_in (c_string haystack) (c_string needle)"

text \<open>
  \<^verbatim>\<open>case PyTrace_CALL\<close>, in the order of the source. The result is the return code
  together with the struct and the effects; the code \<open>- 1\<close> is one of the two early
  \<^verbatim>\<open>return -1\<close>, the code \<open>0\<close> is the \<^verbatim>\<open>break\<close>.

  \<open>grow_tracenames\<close> is the successful \<^verbatim>\<open>PyMem_Realloc\<close> with the two assignments after
  it: the old cells keep their contents, \<^verbatim>\<open>TRACENAMES_DELTA\<close> fresh cells follow.
  \<open>set_tracename\<close> is the final \<^verbatim>\<open>if (PyString_Check(tracename))\<close>, which writes the cell
  at \<^verbatim>\<open>depth\<close>; it returns the struct and the store it made. \<open>lookup_tracename\<close> is the
  part between them: \<^verbatim>\<open>PyDict_GetItem\<close> on the cache, on a miss the call of
  \<^verbatim>\<open>should_trace\<close>, \<^verbatim>\<open>return -1\<close> if it failed, otherwise \<^verbatim>\<open>PyDict_SetItem\<close> of its
  result, and then, on a hit as on an answered miss, the write of the cell. \<open>trace_call\<close> is the whole case, from
  \<^verbatim>\<open>self->depth++\<close> on; when \<^verbatim>\<open>PyMem_Realloc\<close> fails it undoes the increment and
  returns \<open>- 1\<close>.
\<close>

definition grow_tracenames :: "Tracer \<Rightarrow> (nat \<Rightarrow> pyobj option) \<Rightarrow> Tracer" where
  "grow_tracenames self cells =
     (let bigger = tracenames_alloc self + TRACENAMES_DELTA
      in self\<lparr> tracenames :=
                 tracenames self @ map cells [nat (tracenames_alloc self) ..< nat bigger],
               tracenames_alloc := bigger \<rparr>)"

definition set_tracename :: "Tracer \<Rightarrow> pyobj \<Rightarrow> Tracer \<times> effect list" where
  "set_tracename self tracename =
     (if PyString_Check tracename
      then (self\<lparr> tracenames := (tracenames self)[nat (depth self) := Some tracename] \<rparr>,
            [Stored (depth self) (Some tracename)])
      else (self\<lparr> tracenames := (tracenames self)[nat (depth self) := None] \<rparr>,
            [Stored (depth self) None]))"

definition lookup_tracename ::
  "Tracer \<Rightarrow> PyFrameObject \<Rightarrow> int \<times> Tracer \<times> effect list" where
  "lookup_tracename self frame =
     (let filename = co_filename frame in
      case should_trace_cache self filename of
        None \<Rightarrow>
          (case should_trace self filename frame of
             None \<Rightarrow> (- 1, self, [Asked filename None])
           | Some tracename \<Rightarrow>
               (let self1 = self\<lparr> should_trace_cache :=
                                  (should_trace_cache self)(filename \<mapsto> tracename) \<rparr>;
                    written = set_tracename self1 tracename
                in (0, fst written,
                    [Asked filename (Some tracename), Cached filename tracename] @ snd written)))
      | Some tracename \<Rightarrow>
          (let written = set_tracename self tracename in (0, fst written, snd written)))"

definition trace_call ::
  "Tracer \<Rightarrow> PyFrameObject \<Rightarrow> allocation \<Rightarrow> int \<times> Tracer \<times> effect list" where
  "trace_call self frame mem =
     (let self1 = self\<lparr> depth := depth self + 1 \<rparr> in
      if depth self1 \<ge> tracenames_alloc self1 then
        (case mem of
           None \<Rightarrow> (- 1, self1\<lparr> depth := depth self1 - 1 \<rparr>, [])
         | Some cells \<Rightarrow> lookup_tracename (grow_tracenames self1 cells) frame)
      else lookup_tracename self1 frame)"

text \<open>\<^verbatim>\<open>case PyTrace_RETURN\<close>.\<close>

definition trace_return :: "Tracer \<Rightarrow> Tracer" where
  "trace_return self =
     (if depth self \<ge> 0 then self\<lparr> depth := depth self - 1 \<rparr> else self)"

text \<open>\<^verbatim>\<open>case PyTrace_LINE\<close>: the key is the tuple of the tracename and the line
  number, the value is \<^verbatim>\<open>Py_None\<close>.\<close>

definition trace_line :: "Tracer \<Rightarrow> PyFrameObject \<Rightarrow> Tracer" where
  "trace_line self frame =
     (if depth self \<ge> 0 then
        (case tracenames self ! nat (depth self) of
           Some tracename \<Rightarrow>
             self\<lparr> data := (data self)((tracename, f_lineno frame) \<mapsto> PyNone) \<rparr>
         | None \<Rightarrow> self)
      else self)"

text \<open>The \<^verbatim>\<open>switch (what)\<close>; it has no \<^verbatim>\<open>default\<close>.\<close>

definition trace_switch ::
  "Tracer \<Rightarrow> PyFrameObject \<Rightarrow> int \<Rightarrow> allocation \<Rightarrow> int \<times> Tracer \<times> effect list" where
  "trace_switch self frame what mem =
     (if what = PyTrace_CALL then trace_call self frame mem
      else if what = PyTrace_RETURN then (0, trace_return self, [])
      else if what = PyTrace_LINE then (0, trace_line self frame, [])
      else (0, self, []))"

text \<open>
  \<^verbatim>\<open>Tracer_trace\<close>: the switch, then the injected \<^verbatim>\<open>RETURN\<close> for an exception that
  comes from \<^verbatim>\<open>pyexpat.c\<close>. The handler calls itself there, so the model is recursive;
  the recursive call is never an exception event, which is the termination argument.
\<close>

function Tracer_trace ::
  "Tracer \<Rightarrow> PyFrameObject \<Rightarrow> int \<Rightarrow> allocation \<Rightarrow> int \<times> Tracer \<times> effect list" where
  "Tracer_trace self frame what mem =
     (case trace_switch self frame what mem of
        (rc, self1, effs) \<Rightarrow>
          if rc < 0 then (- 1, self1, effs)
          else if what = PyTrace_EXCEPTION \<and> strstr (co_filename frame) ''pyexpat.c'' then
            (case Tracer_trace self1 frame PyTrace_RETURN mem of
               (rc2, self2, effs2) \<Rightarrow>
                 if rc2 < 0 then (- 1, self2, effs @ Reentered PyTrace_RETURN # effs2)
                 else (0, self2, effs @ Reentered PyTrace_RETURN # effs2))
          else (0, self1, effs))"
  by pat_completeness auto
termination
  by (relation "measure (\<lambda>(self, frame, what, mem). if what = PyTrace_EXCEPTION then 1 else 0)")
     (auto simp: PyTrace_defs)

declare Tracer_trace.simps [simp del]

text \<open>
  The interpreter hands the events to the handler one after the other. An event is the
  frame, the kind, and what the allocator would answer if asked during it. Nothing in
  the tracer uninstalls the handler when it reports an error (\<^verbatim>\<open>PyEval_SetTrace\<close> is
  undone only by \<^verbatim>\<open>stop\<close> and \<^verbatim>\<open>Tracer_dealloc\<close>), so the run goes on after a
  \<open>- 1\<close>; the return codes are collected.
\<close>

type_synonym event = "PyFrameObject \<times> int \<times> allocation"

fun trace_events :: "Tracer \<Rightarrow> event list \<Rightarrow> int list \<times> Tracer \<times> effect list" where
  "trace_events self [] = ([], self, [])"
| "trace_events self ((frame, what, mem) # evs) =
     (case Tracer_trace self frame what mem of
        (rc, self1, effs) \<Rightarrow>
          (case trace_events self1 evs of
             (rcs, self2, effs2) \<Rightarrow> (rc # rcs, self2, effs @ effs2)))"


subsection \<open>The state of a tracer in use\<close>

text \<open>
  What holds of the struct from \<^verbatim>\<open>Tracer_init\<close> on: \<^verbatim>\<open>depth\<close> is at least \<open>- 1\<close>
  and below the number of allocated entries, and \<^verbatim>\<open>tracenames_alloc\<close> is the size of
  the array. Every read and write of \<^verbatim>\<open>tracenames[depth]\<close> is then inside the array.
\<close>

definition Tracer_inv :: "Tracer \<Rightarrow> bool" where
  "Tracer_inv self =
     (- 1 \<le> depth self \<and> depth self < tracenames_alloc self \<and>
      int (length (tracenames self)) = tracenames_alloc self)"

text \<open>The entries in use: indices \<open>0\<close> to \<^verbatim>\<open>depth\<close>.\<close>

definition depth_stack :: "Tracer \<Rightarrow> pyobj option list" where
  "depth_stack self = take (nat (depth self + 1)) (tracenames self)"

text \<open>
  A sequence of event kinds made of calls and returns only, properly nested, with \<open>n\<close>
  calls open at its start and none at its end.
\<close>

fun well_nested :: "nat \<Rightarrow> int list \<Rightarrow> bool" where
  "well_nested n [] = (n = 0)"
| "well_nested n (what # whats) =
     (if what = PyTrace_CALL then well_nested (Suc n) whats
      else if what = PyTrace_RETURN then 0 < n \<and> well_nested (n - 1) whats
      else False)"

subsection \<open>What a result of should_trace puts into the array\<close>

text \<open>The content of the cell for a result, as the final \<^verbatim>\<open>if\<close> of the call case
  chooses it: the object when it is a string, \<^verbatim>\<open>NULL\<close> otherwise.\<close>

definition cell_for :: "pyobj \<Rightarrow> pyobj option" where
  "cell_for tracename = (if PyString_Check tracename then Some tracename else None)"

subsection \<open>The calls of should_trace in a run\<close>

text \<open>The filenames \<^verbatim>\<open>should_trace\<close> was called with, in order; those for which the
  call failed; and the property that a filename is not asked about again once a call
  for it has returned a result.\<close>

fun asked_files :: "effect list \<Rightarrow> string list" where
  "asked_files [] = []"
| "asked_files (Asked filename result # effs) = filename # asked_files effs"
| "asked_files (eff # effs) = asked_files effs"

fun failed_files :: "effect list \<Rightarrow> string list" where
  "failed_files [] = []"
| "failed_files (Asked filename None # effs) = filename # failed_files effs"
| "failed_files (eff # effs) = failed_files effs"

fun never_asked_again :: "effect list \<Rightarrow> bool" where
  "never_asked_again [] = True"
| "never_asked_again (Asked filename (Some result) # effs) =
     (filename \<notin> set (asked_files effs) \<and> never_asked_again effs)"
| "never_asked_again (eff # effs) = never_asked_again effs"

subsection \<open>The decision as the specification words it\<close>

text \<open>
  Following the specification's words, not the code: a result that is a sentinel or
  falsy means skip, any other result is the token to trace under. Falsy is Python's
  truth test: \<^verbatim>\<open>None\<close>, \<^verbatim>\<open>False\<close>, zero and the empty string. \<open>Some t\<close> stands
  for trace under \<open>t\<close>, \<open>None\<close> for skip.
\<close>

definition spec_falsy :: "pyobj \<Rightarrow> bool" where
  "spec_falsy ob =
     (case ob of PyNone \<Rightarrow> True | PyBool b \<Rightarrow> \<not> b | PyInt i \<Rightarrow> i = 0 | PyString s \<Rightarrow> s = [])"

definition spec_TraceDecision :: "pyobj \<Rightarrow> pyobj option" where
  "spec_TraceDecision result = (if spec_falsy result then None else Some result)"

subsection \<open>Tracers and frames to run the handler on\<close>

definition null_cells :: "nat \<Rightarrow> pyobj option" where
  "null_cells i = None"

text \<open>The struct as \<^verbatim>\<open>Tracer_init\<close> leaves it when the fresh cells happen to be
  \<^verbatim>\<open>NULL\<close> and both dicts are empty.\<close>

definition new_tracer :: "(string \<Rightarrow> PyFrameObject \<Rightarrow> pyobj option) \<Rightarrow> Tracer" where
  "new_tracer st =
     \<lparr> should_trace = st, data = Map.empty, should_trace_cache = Map.empty, started = False,
       depth = - 1, tracenames = replicate 100 None, tracenames_alloc = 100 \<rparr>"

text \<open>A \<^verbatim>\<open>should_trace\<close> that traces \<^verbatim>\<open>a.py\<close> under its own name, declines
  \<^verbatim>\<open>b.py\<close> with \<^verbatim>\<open>False\<close>, and raises on every other file.\<close>

definition demo_should_trace :: "string \<Rightarrow> PyFrameObject \<Rightarrow> pyobj option" where
  "demo_should_trace filename frame =
     (if filename = ''a.py'' then Some (PyString ''a.py'')
      else if filename = ''b.py'' then Some (PyBool False)
      else None)"

definition frame_at :: "string \<Rightarrow> int \<Rightarrow> PyFrameObject" where
  "frame_at filename lineno = \<lparr> co_filename = filename, f_lineno = lineno \<rparr>"

text \<open>A \<^verbatim>\<open>should_trace\<close> that traces every file under its own name, a tracer using
  it, and that tracer inside a call of a frame of \<^verbatim>\<open>Modules/pyexpat.c\<close>.\<close>

definition expat_should_trace :: "string \<Rightarrow> PyFrameObject \<Rightarrow> pyobj option" where
  "expat_should_trace filename frame = Some (PyString filename)"

definition expat_tracer :: Tracer where
  "expat_tracer =
     (new_tracer expat_should_trace)
       \<lparr> should_trace_cache := [''Modules/pyexpat.c'' \<mapsto> PyString ''Modules/pyexpat.c''],
         depth := 0,
         tracenames := (replicate 100 None)[0 := Some (PyString ''Modules/pyexpat.c'')] \<rparr>"

text \<open>A tracer one hundred calls deep, its array full.\<close>

definition deep_tracer :: Tracer where
  "deep_tracer = (new_tracer demo_should_trace) \<lparr> depth := 99 \<rparr>"

text \<open>A tracer inside a traced call of \<^verbatim>\<open>a.py\<close>.\<close>

definition traced_tracer :: Tracer where
  "traced_tracer =
     (new_tracer demo_should_trace)
       \<lparr> depth := 0, tracenames := (replicate 100 None)[0 := Some (PyString ''a.py'')] \<rparr>"

text \<open>Two nested calls and their returns.\<close>

definition demo_calls :: "event list" where
  "demo_calls =
     [(frame_at ''a.py'' 1, PyTrace_CALL, None), (frame_at ''b.py'' 1, PyTrace_CALL, None),
      (frame_at ''b.py'' 2, PyTrace_RETURN, None), (frame_at ''a.py'' 2, PyTrace_RETURN, None)]"

text \<open>The tracer after a call of \<^verbatim>\<open>a.py\<close> and its return: the stack is empty again,
  and cell 0 still holds what the call wrote.\<close>

definition stale_tracer :: Tracer where
  "stale_tracer =
     (new_tracer demo_should_trace)
       \<lparr> should_trace_cache := [''a.py'' \<mapsto> PyString ''a.py''],
         tracenames := (replicate 100 None)[0 := Some (PyString ''a.py'')] \<rparr>"

text \<open>A tracer that has \<^verbatim>\<open>a.py\<close> in its cache and nothing in its array, and one that
  has entered \<^verbatim>\<open>c.py\<close> by a call on which \<open>demo_should_trace\<close> raised.\<close>

definition cached_tracer :: Tracer where
  "cached_tracer =
     (new_tracer demo_should_trace) \<lparr> should_trace_cache := [''a.py'' \<mapsto> PyString ''a.py''] \<rparr>"

definition failed_tracer :: Tracer where
  "failed_tracer = (new_tracer demo_should_trace) \<lparr> depth := 0 \<rparr>"

text \<open>Calls of \<^verbatim>\<open>a.py\<close> and, twice, of \<^verbatim>\<open>b.py\<close>; and two calls of \<^verbatim>\<open>c.py\<close>, on
  which \<open>demo_should_trace\<close> raises.\<close>

definition memo_events :: "event list" where
  "memo_events =
     [(frame_at ''a.py'' 1, PyTrace_CALL, None), (frame_at ''b.py'' 1, PyTrace_CALL, None),
      (frame_at ''b.py'' 2, PyTrace_RETURN, None), (frame_at ''b.py'' 1, PyTrace_CALL, None),
      (frame_at ''b.py'' 2, PyTrace_RETURN, None), (frame_at ''a.py'' 2, PyTrace_RETURN, None)]"

definition failing_events :: "event list" where
  "failing_events =
     [(frame_at ''c.py'' 1, PyTrace_CALL, None), (frame_at ''c.py'' 1, PyTrace_CALL, None)]"

text \<open>A \<^verbatim>\<open>should_trace\<close> that answers with the empty string for \<^verbatim>\<open>e.py\<close> and with
  the number 7 for every other file, and a tracer using it.\<close>

definition odd_should_trace :: "string \<Rightarrow> PyFrameObject \<Rightarrow> pyobj option" where
  "odd_should_trace filename frame =
     (if filename = ''e.py'' then Some (PyString []) else Some (PyInt 7))"

definition odd_tracer :: Tracer where
  "odd_tracer = stale_tracer \<lparr> should_trace := odd_should_trace \<rparr>"

text \<open>The example run of the specification: \<^verbatim>\<open>a.py\<close> calls \<^verbatim>\<open>b.py\<close>, with lines
  executed in both.\<close>

definition spec_scenario :: "event list" where
  "spec_scenario =
     [(frame_at ''a.py'' 9, PyTrace_CALL, None), (frame_at ''a.py'' 10, PyTrace_LINE, None),
      (frame_at ''b.py'' 4, PyTrace_CALL, None), (frame_at ''b.py'' 5, PyTrace_LINE, None),
      (frame_at ''b.py'' 5, PyTrace_RETURN, None), (frame_at ''a.py'' 11, PyTrace_LINE, None),
      (frame_at ''a.py'' 11, PyTrace_RETURN, None)]"

section \<open>Properties\<close>

subsection \<open>The handler, event kind by event kind\<close>

lemma set_tracename_fields [simp]:
  "depth (fst (set_tracename s t)) = depth s"
  "tracenames_alloc (fst (set_tracename s t)) = tracenames_alloc s"
  "length (tracenames (fst (set_tracename s t))) = length (tracenames s)"
  "data (fst (set_tracename s t)) = data s"
  "should_trace_cache (fst (set_tracename s t)) = should_trace_cache s"
  "should_trace (fst (set_tracename s t)) = should_trace s"
  "started (fst (set_tracename s t)) = started s"
  by (simp_all add: set_tracename_def)

lemma set_tracename_eqD:
  "set_tracename s t = (s', effs) \<Longrightarrow>
   depth s' = depth s \<and> tracenames_alloc s' = tracenames_alloc s \<and>
   length (tracenames s') = length (tracenames s) \<and> data s' = data s \<and>
   should_trace_cache s' = should_trace_cache s"
  by (auto simp: set_tracename_def split: if_splits)

lemma set_tracename_stored:
  "snd (set_tracename s t) = [Stored (depth s) (if PyString_Check t then Some t else None)]"
  by (simp add: set_tracename_def)

lemma grow_tracenames_fields [simp]:
  "depth (grow_tracenames s c) = depth s"
  "tracenames_alloc (grow_tracenames s c) = tracenames_alloc s + TRACENAMES_DELTA"
  "data (grow_tracenames s c) = data s"
  "should_trace_cache (grow_tracenames s c) = should_trace_cache s"
  "should_trace (grow_tracenames s c) = should_trace s"
  "started (grow_tracenames s c) = started s"
  "tracenames (grow_tracenames s c) =
     tracenames s @ map c [nat (tracenames_alloc s) ..< nat (tracenames_alloc s + TRACENAMES_DELTA)]"
  by (simp_all add: grow_tracenames_def Let_def)

lemma lookup_tracename_cases:
  obtains (hit) t where "should_trace_cache s (co_filename frame) = Some t"
      "lookup_tracename s frame = (0, fst (set_tracename s t), snd (set_tracename s t))"
  | (failed) "should_trace_cache s (co_filename frame) = None"
      "should_trace s (co_filename frame) frame = None"
      "lookup_tracename s frame = (- 1, s, [Asked (co_filename frame) None])"
  | (answered) t where "should_trace_cache s (co_filename frame) = None"
      "should_trace s (co_filename frame) frame = Some t"
      "lookup_tracename s frame =
         (0,
          fst (set_tracename
                 (s\<lparr>should_trace_cache := (should_trace_cache s)(co_filename frame \<mapsto> t)\<rparr>) t),
          [Asked (co_filename frame) (Some t), Cached (co_filename frame) t] @
          snd (set_tracename
                 (s\<lparr>should_trace_cache := (should_trace_cache s)(co_filename frame \<mapsto> t)\<rparr>) t))"
proof (cases "should_trace_cache s (co_filename frame)")
  case (Some t)
  then show ?thesis by (intro hit [of t]) (simp_all add: lookup_tracename_def Let_def)
next
  case None
  show ?thesis
  proof (cases "should_trace s (co_filename frame) frame")
    case n: None
    with None show ?thesis by (intro failed) (simp_all add: lookup_tracename_def Let_def)
  next
    case (Some t)
    with None show ?thesis
      by (intro answered [of t]) (simp_all add: lookup_tracename_def Let_def)
  qed
qed

lemma lookup_tracename_rc:
  "lookup_tracename s frame = (rc, s', effs) \<Longrightarrow> rc = 0 \<or> rc = - 1"
  by (rule lookup_tracename_cases [of s frame]) auto

lemma lookup_tracename_depth:
  "lookup_tracename s frame = (rc, s', effs) \<Longrightarrow> depth s' = depth s"
  by (rule lookup_tracename_cases [of s frame]) (auto dest!: set_tracename_eqD)

lemma trace_call_depth:
  "trace_call s frame mem = (rc, s', effs) \<Longrightarrow> depth s' = depth s \<or> depth s' = depth s + 1"
  by (auto simp: trace_call_def Let_def split: option.splits if_splits
      dest!: lookup_tracename_depth)

lemma trace_call_rc:
  "trace_call s frame mem = (rc, s', effs) \<Longrightarrow> rc = 0 \<or> rc = - 1"
  by (auto simp: trace_call_def Let_def split: option.splits if_splits dest: lookup_tracename_rc)

lemma Tracer_trace_CALL:
  "Tracer_trace self frame PyTrace_CALL mem = trace_call self frame mem"
proof -
  obtain rc s' effs where r: "trace_call self frame mem = (rc, s', effs)"
    by (cases "trace_call self frame mem") auto
  from trace_call_rc [OF r] show ?thesis
    by (subst Tracer_trace.simps) (auto simp: trace_switch_def r PyTrace_defs)
qed

lemma Tracer_trace_RETURN:
  "Tracer_trace self frame PyTrace_RETURN mem = (0, trace_return self, [])"
  by (subst Tracer_trace.simps) (simp add: trace_switch_def PyTrace_defs)

lemma Tracer_trace_LINE:
  "Tracer_trace self frame PyTrace_LINE mem = (0, trace_line self frame, [])"
  by (subst Tracer_trace.simps) (simp add: trace_switch_def PyTrace_defs)

lemma Tracer_trace_EXCEPTION:
  "Tracer_trace self frame PyTrace_EXCEPTION mem =
     (if strstr (co_filename frame) ''pyexpat.c''
      then (0, trace_return self, [Reentered PyTrace_RETURN])
      else (0, self, []))"
  by (subst Tracer_trace.simps)
     (simp add: trace_switch_def Tracer_trace_RETURN, simp add: PyTrace_defs)

lemma Tracer_trace_other:
  "what \<noteq> PyTrace_CALL \<Longrightarrow> what \<noteq> PyTrace_RETURN \<Longrightarrow> what \<noteq> PyTrace_LINE \<Longrightarrow>
   what \<noteq> PyTrace_EXCEPTION \<Longrightarrow> Tracer_trace self frame what mem = (0, self, [])"
  by (subst Tracer_trace.simps) (simp add: trace_switch_def)

lemma Tracer_init_new_tracer:
  "Tracer_init st Map.empty Map.empty (Some null_cells) = Some (new_tracer st)"
proof -
  have "map null_cells xs = replicate (length xs) None" for xs
    by (induction xs) (simp_all add: null_cells_def)
  from this [of "[0..<100]"] show ?thesis
    by (simp add: Tracer_init_def new_tracer_def TRACENAMES_DELTA_def)
qed

subsection \<open>A return on an empty stack\<close>

text \<open>
  C9. When \<^verbatim>\<open>depth\<close> is negative, a \<^verbatim>\<open>RETURN\<close> event changes nothing: the handler
  returns 0, the struct (depth, array, cache, data) is the one it was given, and neither
  \<^verbatim>\<open>should_trace\<close> nor the handler itself is called.
\<close>

theorem return_on_empty_stack:
  assumes "depth self < 0"
  shows "Tracer_trace self frame PyTrace_RETURN mem = (0, self, [])"
  using assms by (simp add: Tracer_trace_RETURN trace_return_def)

theorem return_on_empty_stack_witness:
  "depth (new_tracer demo_should_trace) < 0 \<and>
   Tracer_trace (new_tracer demo_should_trace) (frame_at ''a.py'' 3) PyTrace_RETURN None =
     (0, new_tracer demo_should_trace, [])"
proof -
  have d: "depth (new_tracer demo_should_trace) < 0" by (simp add: new_tracer_def)
  from d return_on_empty_stack [OF d] show ?thesis by simp
qed

subsection \<open>A call that cannot grow the array\<close>

text \<open>
  C7. When a \<^verbatim>\<open>CALL\<close> event needs a bigger array (the incremented depth reaches
  \<^verbatim>\<open>tracenames_alloc\<close>) and \<^verbatim>\<open>PyMem_Realloc\<close> fails, the handler returns \<open>- 1\<close> and
  the struct is exactly the one before the event: the depth is back at its prior value,
  the array and its contents, the cache and the data are untouched, and
  \<^verbatim>\<open>should_trace\<close> is not called.
\<close>

theorem realloc_failure:
  assumes "tracenames_alloc self \<le> depth self + 1"
  shows "Tracer_trace self frame PyTrace_CALL None = (- 1, self, [])"
  using assms by (simp add: Tracer_trace_CALL trace_call_def Let_def)

theorem realloc_failure_witness:
  "tracenames_alloc deep_tracer \<le> depth deep_tracer + 1 \<and>
   Tracer_trace deep_tracer (frame_at ''a.py'' 1) PyTrace_CALL None = (- 1, deep_tracer, [])"
proof -
  have d: "tracenames_alloc deep_tracer \<le> depth deep_tracer + 1"
    by (simp add: deep_tracer_def new_tracer_def)
  from d realloc_failure [OF d] show ?thesis by simp
qed

subsection \<open>The invariant\<close>

text \<open>\<^verbatim>\<open>Tracer_init\<close> establishes \<open>Tracer_inv\<close> and every event keeps it, whatever the
  handler returns.\<close>

lemma set_tracename_inv: "Tracer_inv s \<Longrightarrow> Tracer_inv (fst (set_tracename s t))"
  by (simp add: Tracer_inv_def)

lemma lookup_tracename_inv:
  "Tracer_inv s \<Longrightarrow> lookup_tracename s frame = (rc, s', effs) \<Longrightarrow>
   Tracer_inv s' \<and> depth s' = depth s"
  by (rule lookup_tracename_cases [of s frame])
     (auto simp: Tracer_inv_def dest!: set_tracename_eqD)

lemma grow_tracenames_inv:
  "- 1 \<le> depth s \<Longrightarrow> depth s \<le> tracenames_alloc s \<Longrightarrow>
   int (length (tracenames s)) = tracenames_alloc s \<Longrightarrow> Tracer_inv (grow_tracenames s cells)"
  by (auto simp: Tracer_inv_def TRACENAMES_DELTA_def)

lemma trace_call_inv:
  assumes "Tracer_inv s" and "trace_call s frame mem = (rc, s', effs)"
  shows "Tracer_inv s' \<and> (rc = 0 \<longrightarrow> depth s' = depth s + 1) \<and>
         (depth s' = depth s \<or> depth s' = depth s + 1)"
proof (cases "tracenames_alloc s \<le> depth s + 1")
  case True
  show ?thesis
  proof (cases mem)
    case None
    with True assms show ?thesis by (simp add: trace_call_def Let_def)
  next
    case (Some cells)
    let ?g = "grow_tracenames (s\<lparr>depth := depth s + 1\<rparr>) cells"
    from assms(1) True have "Tracer_inv ?g"
      by (intro grow_tracenames_inv) (auto simp: Tracer_inv_def)
    moreover from Some True assms(2) have "lookup_tracename ?g frame = (rc, s', effs)"
      by (simp add: trace_call_def Let_def)
    ultimately show ?thesis using lookup_tracename_inv [of ?g frame rc s' effs] by simp
  qed
next
  case False
  let ?g = "s\<lparr>depth := depth s + 1\<rparr>"
  from assms(1) False have "Tracer_inv ?g" by (simp add: Tracer_inv_def)
  moreover from False assms(2) have "lookup_tracename ?g frame = (rc, s', effs)"
    by (simp add: trace_call_def Let_def)
  ultimately show ?thesis using lookup_tracename_inv [of ?g frame rc s' effs] by simp
qed

lemma trace_return_inv: "Tracer_inv s \<Longrightarrow> Tracer_inv (trace_return s)"
  by (simp add: Tracer_inv_def trace_return_def)

lemma trace_line_inv: "Tracer_inv s \<Longrightarrow> Tracer_inv (trace_line s frame)"
  by (simp add: Tracer_inv_def trace_line_def split: option.splits)

lemma what_cases:
  obtains "what = PyTrace_CALL" | "what = PyTrace_RETURN" | "what = PyTrace_LINE"
  | "what = PyTrace_EXCEPTION"
  | "what \<noteq> PyTrace_CALL" "what \<noteq> PyTrace_RETURN" "what \<noteq> PyTrace_LINE"
    "what \<noteq> PyTrace_EXCEPTION"
  by blast

lemma Tracer_trace_inv:
  assumes "Tracer_inv s" and "Tracer_trace s frame what mem = (rc, s', effs)"
  shows "Tracer_inv s'"
proof (cases what rule: what_cases)
  case 1
  with assms trace_call_inv show ?thesis by (simp add: Tracer_trace_CALL)
next
  case 2
  with assms show ?thesis by (auto simp: Tracer_trace_RETURN trace_return_inv)
next
  case 3
  with assms show ?thesis by (auto simp: Tracer_trace_LINE trace_line_inv)
next
  case 4
  with assms show ?thesis
    by (auto simp: Tracer_trace_EXCEPTION trace_return_inv split: if_splits)
next
  case 5
  with assms show ?thesis by (simp add: Tracer_trace_other)
qed

lemma Tracer_init_inv: "Tracer_init st d c mem = Some s \<Longrightarrow> Tracer_inv s"
  by (auto simp: Tracer_init_def Tracer_inv_def TRACENAMES_DELTA_def split: option.splits)

lemma trace_events_state:
  "fst (snd (trace_events s ((frame, what, mem) # evs))) =
     fst (snd (trace_events (fst (snd (Tracer_trace s frame what mem))) evs))"
  by (simp split: prod.splits)

lemma trace_events_effects:
  "snd (snd (trace_events s ((frame, what, mem) # evs))) =
     snd (snd (Tracer_trace s frame what mem)) @
     snd (snd (trace_events (fst (snd (Tracer_trace s frame what mem))) evs))"
  by (simp split: prod.splits)

lemma trace_events_inv:
  "Tracer_inv s \<Longrightarrow> Tracer_inv (fst (snd (trace_events s evs)))"
proof (induction evs arbitrary: s)
  case Nil
  then show ?case by simp
next
  case (Cons ev evs)
  obtain frame what mem where ev: "ev = (frame, what, mem)" by (cases ev) auto
  obtain rc s1 effs where r: "Tracer_trace s frame what mem = (rc, s1, effs)"
    by (cases "Tracer_trace s frame what mem") auto
  from Tracer_trace_inv [OF Cons.prems r] have "Tracer_inv s1" .
  from Cons.IH [OF this] show ?case by (simp add: ev r trace_events_state del: trace_events.simps)
qed

text \<open>
  C8. If the depth is within the array before an event (\<open>Tracer_inv\<close>), it is within
  the array after it, whether the handler returned 0 or \<open>- 1\<close>. A call that returns 0
  has raised the depth by exactly one, and the cell at the new depth, where the decision
  was stored, is inside the array: no frame is dropped, at any depth.
\<close>

theorem depth_within_capacity:
  assumes "Tracer_inv self" and "Tracer_trace self frame what mem = (rc, self', effs)"
  shows "Tracer_inv self' \<and>
         (0 \<le> depth self' \<longrightarrow> depth self' < tracenames_alloc self') \<and>
         (what = PyTrace_CALL \<and> rc = 0 \<longrightarrow>
            depth self' = depth self + 1 \<and> 0 \<le> depth self' \<and>
            nat (depth self') < length (tracenames self'))"
proof -
  have i: "Tracer_inv self'" using assms by (rule Tracer_trace_inv)
  moreover have "depth self' = depth self + 1" if "what = PyTrace_CALL" "rc = 0"
    using that assms trace_call_inv [of self frame mem rc self' effs]
    by (simp add: Tracer_trace_CALL)
  ultimately show ?thesis using assms(1) by (auto simp: Tracer_inv_def)
qed

theorem depth_within_capacity_witness:
  "Tracer_inv deep_tracer \<and>
   Tracer_inv (fst (snd (Tracer_trace deep_tracer (frame_at ''a.py'' 1) PyTrace_CALL (Some null_cells)))) \<and>
   depth (fst (snd (Tracer_trace deep_tracer (frame_at ''a.py'' 1) PyTrace_CALL (Some null_cells)))) = 100 \<and>
   length (tracenames (fst (snd (Tracer_trace deep_tracer (frame_at ''a.py'' 1) PyTrace_CALL (Some null_cells))))) = 200"
proof -
  let ?r = "Tracer_trace deep_tracer (frame_at ''a.py'' 1) PyTrace_CALL (Some null_cells)"
  have i: "Tracer_inv deep_tracer"
    by (simp add: Tracer_inv_def deep_tracer_def new_tracer_def)
  have r: "?r = (fst ?r, fst (snd ?r), snd (snd ?r))" by simp
  have rc: "fst ?r = 0"
    by (simp add: Tracer_trace_CALL trace_call_def Let_def deep_tracer_def new_tracer_def
        lookup_tracename_def demo_should_trace_def frame_at_def)
  have d: "depth deep_tracer = 99" by (simp add: deep_tracer_def)
  have a: "tracenames_alloc (fst (snd ?r)) = 200"
    by (simp add: Tracer_trace_CALL trace_call_def Let_def deep_tracer_def new_tracer_def
        lookup_tracename_def demo_should_trace_def frame_at_def TRACENAMES_DELTA_def)
  from depth_within_capacity [OF i r] rc d a i show ?thesis
    by (simp add: Tracer_inv_def)
qed

subsection \<open>Line events\<close>

text \<open>
  C2. On a \<^verbatim>\<open>LINE\<close> event, in any state: if \<^verbatim>\<open>depth\<close> is at least 0 and
  \<^verbatim>\<open>tracenames[depth]\<close> holds a tracename, then afterwards the key (tracename, line
  number) is in \<^verbatim>\<open>data\<close> (and nothing else changed); if \<^verbatim>\<open>depth\<close> is negative or
  the cell is \<^verbatim>\<open>NULL\<close>, the struct, \<^verbatim>\<open>data\<close> included, is unchanged. The handler
  returns 0. (In a state with \<open>Tracer_inv\<close>, which is every state a tracer gets into,
  the cell read is inside the array.)
\<close>

theorem line_event:
  assumes "Tracer_trace self frame PyTrace_LINE mem = (rc, self', effs)"
  shows "rc = 0 \<and> effs = [] \<and>
    (\<forall>tracename. 0 \<le> depth self \<and> tracenames self ! nat (depth self) = Some tracename \<longrightarrow>
       data self' (tracename, f_lineno frame) = Some PyNone \<and>
       self' = self\<lparr> data := (data self)((tracename, f_lineno frame) \<mapsto> PyNone) \<rparr>) \<and>
    (depth self < 0 \<or> tracenames self ! nat (depth self) = None \<longrightarrow> self' = self)"
  using assms by (auto simp: Tracer_trace_LINE trace_line_def)

theorem line_event_witness:
  "0 \<le> depth traced_tracer \<and>
   tracenames traced_tracer ! nat (depth traced_tracer) = Some (PyString ''a.py'') \<and>
   data (fst (snd (Tracer_trace traced_tracer (frame_at ''a.py'' 10) PyTrace_LINE None)))
     (PyString ''a.py'', 10) = Some PyNone \<and>
   depth (new_tracer demo_should_trace) < 0 \<and>
   fst (snd (Tracer_trace (new_tracer demo_should_trace) (frame_at ''a.py'' 10) PyTrace_LINE None))
     = new_tracer demo_should_trace"
proof -
  obtain rc s e where r:
    "Tracer_trace traced_tracer (frame_at ''a.py'' 10) PyTrace_LINE None = (rc, s, e)"
    by (cases "Tracer_trace traced_tracer (frame_at ''a.py'' 10) PyTrace_LINE None") auto
  have slot: "0 \<le> depth traced_tracer \<and>
      tracenames traced_tracer ! nat (depth traced_tracer) = Some (PyString ''a.py'')"
    by (simp add: traced_tracer_def new_tracer_def)
  obtain rc2 s2 e2 where r2:
    "Tracer_trace (new_tracer demo_should_trace) (frame_at ''a.py'' 10) PyTrace_LINE None = (rc2, s2, e2)"
    by (cases "Tracer_trace (new_tracer demo_should_trace) (frame_at ''a.py'' 10) PyTrace_LINE None") auto
  have d2: "depth (new_tracer demo_should_trace) < 0" by (simp add: new_tracer_def)
  from line_event [OF r] slot
  have "data s (PyString ''a.py'', 10) = Some PyNone" by (simp add: frame_at_def)
  moreover from line_event [OF r2] d2 have "s2 = new_tracer demo_should_trace" by simp
  ultimately show ?thesis using slot d2 r r2 by simp
qed

subsection \<open>The exception from pyexpat.c\<close>

text \<open>
  C5. On an \<^verbatim>\<open>EXCEPTION\<close> event whose filename, as a C string, contains
  \<^verbatim>\<open>pyexpat.c\<close>: the handler returns 0; the struct afterwards is the one before with
  \<^verbatim>\<open>depth\<close> decremented when \<^verbatim>\<open>depth\<close> was at least 0, and the one before when the stack
  was empty; the effects are exactly one call of the handler by itself, with kind
  \<^verbatim>\<open>RETURN\<close>, and nothing from inside that call. The whole is what a \<^verbatim>\<open>RETURN\<close> event
  for the same frame does, with the re-entry in front. Starting from depth \<open>- 1\<close>, a
  \<^verbatim>\<open>CALL\<close> for such a frame followed by the \<^verbatim>\<open>EXCEPTION\<close> ends at depth \<open>- 1\<close>.
\<close>

theorem pyexpat_exception:
  assumes "strstr (co_filename frame) ''pyexpat.c''"
  shows "Tracer_trace self frame PyTrace_EXCEPTION mem =
           (0, (if 0 \<le> depth self then self\<lparr>depth := depth self - 1\<rparr> else self),
            [Reentered PyTrace_RETURN])
         \<and> Tracer_trace self frame PyTrace_EXCEPTION mem =
           (case Tracer_trace self frame PyTrace_RETURN mem of
              (rc, self', effs) \<Rightarrow> (rc, self', Reentered PyTrace_RETURN # effs))
         \<and> (depth self = - 1 \<longrightarrow>
              depth (fst (snd (trace_events self
                 [(frame, PyTrace_CALL, mem1), (frame, PyTrace_EXCEPTION, mem2)]))) = - 1)"
proof (intro conjI impI)
  show "Tracer_trace self frame PyTrace_EXCEPTION mem =
      (0, (if 0 \<le> depth self then self\<lparr>depth := depth self - 1\<rparr> else self),
       [Reentered PyTrace_RETURN])"
    using assms by (simp add: Tracer_trace_EXCEPTION trace_return_def)
  show "Tracer_trace self frame PyTrace_EXCEPTION mem =
      (case Tracer_trace self frame PyTrace_RETURN mem of
         (rc, self', effs) \<Rightarrow> (rc, self', Reentered PyTrace_RETURN # effs))"
    using assms by (simp add: Tracer_trace_EXCEPTION Tracer_trace_RETURN)
  assume d: "depth self = - 1"
  obtain rc s1 effs where c: "trace_call self frame mem1 = (rc, s1, effs)"
    by (cases "trace_call self frame mem1") auto
  from trace_call_depth [OF c] d have "depth s1 = - 1 \<or> depth s1 = 0" by simp
  then have "depth (trace_return s1) = - 1" by (auto simp: trace_return_def)
  with assms c show "depth (fst (snd (trace_events self
      [(frame, PyTrace_CALL, mem1), (frame, PyTrace_EXCEPTION, mem2)]))) = - 1"
    by (simp add: Tracer_trace_CALL Tracer_trace_EXCEPTION)
qed

lemma expat_call:
  "Tracer_trace (new_tracer expat_should_trace) (frame_at ''Modules/pyexpat.c'' 1)
     PyTrace_CALL None =
   (0, expat_tracer,
    [Asked ''Modules/pyexpat.c'' (Some (PyString ''Modules/pyexpat.c'')),
     Cached ''Modules/pyexpat.c'' (PyString ''Modules/pyexpat.c''),
     Stored 0 (Some (PyString ''Modules/pyexpat.c''))])"
  by (simp add: Tracer_trace_CALL trace_call_def Let_def lookup_tracename_def new_tracer_def
      expat_should_trace_def frame_at_def set_tracename_def PyString_Check_def expat_tracer_def)

theorem pyexpat_exception_witness:
  "strstr (co_filename (frame_at ''Modules/pyexpat.c'' 1)) ''pyexpat.c'' \<and>
   depth expat_tracer = 0 \<and>
   Tracer_trace expat_tracer (frame_at ''Modules/pyexpat.c'' 1) PyTrace_EXCEPTION None =
     (0, expat_tracer\<lparr>depth := - 1\<rparr>, [Reentered PyTrace_RETURN]) \<and>
   depth (new_tracer expat_should_trace) = - 1 \<and>
   fst (Tracer_trace (new_tracer expat_should_trace) (frame_at ''Modules/pyexpat.c'' 1)
      PyTrace_CALL None) = 0 \<and>
   depth (fst (snd (trace_events (new_tracer expat_should_trace)
      [(frame_at ''Modules/pyexpat.c'' 1, PyTrace_CALL, None),
       (frame_at ''Modules/pyexpat.c'' 1, PyTrace_EXCEPTION, None)]))) = - 1"
proof -
  let ?f = "frame_at ''Modules/pyexpat.c'' 1"
  have m: "strstr (co_filename ?f) ''pyexpat.c''"
    by (simp add: frame_at_def strstr_def c_string_def)
  have d0: "depth expat_tracer = 0" by (simp add: expat_tracer_def new_tracer_def)
  have d: "depth (new_tracer expat_should_trace) = - 1" by (simp add: new_tracer_def)
  have rc: "fst (Tracer_trace (new_tracer expat_should_trace) ?f PyTrace_CALL None) = 0"
    by (simp add: expat_call)
  from pyexpat_exception [OF m, of expat_tracer None] d0
  have e: "Tracer_trace expat_tracer ?f PyTrace_EXCEPTION None =
      (0, expat_tracer\<lparr>depth := - 1\<rparr>, [Reentered PyTrace_RETURN])"
    by simp
  from pyexpat_exception [OF m, of "new_tracer expat_should_trace" None None None] d
  have "depth (fst (snd (trace_events (new_tracer expat_should_trace)
      [(?f, PyTrace_CALL, None), (?f, PyTrace_EXCEPTION, None)]))) = - 1"
    by blast
  with m d0 e d rc show ?thesis by blast
qed

lemma strstr_stops_at_NUL:
  "\<not> strstr (''x'' @ [CHR 0x00] @ ''pyexpat.c'') ''pyexpat.c''"
  by (simp add: strstr_def c_string_def)

subsection \<open>A call on which should_trace fails\<close>

lemma failed_call_state:
  assumes "should_trace_cache self (co_filename frame) = None"
    and "should_trace self (co_filename frame) frame = None"
  shows "depth self + 1 < tracenames_alloc self \<Longrightarrow>
           Tracer_trace self frame PyTrace_CALL mem =
             (- 1, self\<lparr>depth := depth self + 1\<rparr>, [Asked (co_filename frame) None])"
    and "tracenames_alloc self \<le> depth self + 1 \<Longrightarrow>
           Tracer_trace self frame PyTrace_CALL (Some cells) =
             (- 1, grow_tracenames (self\<lparr>depth := depth self + 1\<rparr>) cells,
              [Asked (co_filename frame) None])"
  using assms
  by (simp_all add: Tracer_trace_CALL trace_call_def Let_def lookup_tracename_def)

text \<open>
  C6. On a \<^verbatim>\<open>CALL\<close> event for a file that is not in the cache, when \<^verbatim>\<open>should_trace\<close>
  fails (and the array had room or could grow): the handler returns \<open>- 1\<close>, having
  called \<^verbatim>\<open>should_trace\<close> once; the cache is the one before the event; the depth
  stays incremented; the cells the array had keep their contents; the data is
  unchanged.
\<close>

theorem should_trace_failure:
  assumes "should_trace_cache self (co_filename frame) = None"
    and "should_trace self (co_filename frame) frame = None"
    and "depth self + 1 < tracenames_alloc self \<or> mem \<noteq> None"
    and "Tracer_trace self frame PyTrace_CALL mem = (rc, self', effs)"
  shows "rc = - 1 \<and> effs = [Asked (co_filename frame) None] \<and>
         should_trace_cache self' = should_trace_cache self \<and>
         depth self' = depth self + 1 \<and>
         take (length (tracenames self)) (tracenames self') = tracenames self \<and>
         data self' = data self"
proof (cases "depth self + 1 < tracenames_alloc self")
  case True
  from failed_call_state(1) [OF assms(1,2) True, of mem] assms(4) show ?thesis by auto
next
  case False
  with assms(3) obtain cells where "mem = Some cells" by auto
  with failed_call_state(2) [OF assms(1,2), of cells] False assms(4) show ?thesis by auto
qed

theorem should_trace_failure_witness:
  "should_trace_cache (new_tracer demo_should_trace) (co_filename (frame_at ''c.py'' 1)) = None \<and>
   should_trace (new_tracer demo_should_trace) (co_filename (frame_at ''c.py'' 1))
     (frame_at ''c.py'' 1) = None \<and>
   depth (new_tracer demo_should_trace) + 1 < tracenames_alloc (new_tracer demo_should_trace) \<and>
   fst (Tracer_trace (new_tracer demo_should_trace) (frame_at ''c.py'' 1) PyTrace_CALL None) = - 1 \<and>
   depth (fst (snd (Tracer_trace (new_tracer demo_should_trace) (frame_at ''c.py'' 1)
     PyTrace_CALL None))) = 0 \<and>
   should_trace_cache (fst (snd (Tracer_trace (new_tracer demo_should_trace)
     (frame_at ''c.py'' 1) PyTrace_CALL None))) ''c.py'' = None"
proof -
  let ?s = "new_tracer demo_should_trace" and ?f = "frame_at ''c.py'' 1"
  let ?r = "Tracer_trace ?s ?f PyTrace_CALL None"
  have c: "should_trace_cache ?s (co_filename ?f) = None" by (simp add: new_tracer_def)
  have f: "should_trace ?s (co_filename ?f) ?f = None"
    by (simp add: new_tracer_def demo_should_trace_def frame_at_def)
  have a: "depth ?s + 1 < tracenames_alloc ?s" by (simp add: new_tracer_def)
  then have a': "depth ?s + 1 < tracenames_alloc ?s \<or> (None :: allocation) \<noteq> None" by simp
  have r: "?r = (fst ?r, fst (snd ?r), snd (snd ?r))" by simp
  have d: "depth ?s = - 1" by (simp add: new_tracer_def)
  from should_trace_failure [OF c f a' r] c f a d show ?thesis
    by (simp add: frame_at_def)
qed

lemma stale_tracer_reached:
  "fst (snd (trace_events (new_tracer demo_should_trace)
     [(frame_at ''a.py'' 1, PyTrace_CALL, None), (frame_at ''a.py'' 2, PyTrace_RETURN, None)]))
   = stale_tracer"
  by (simp add: Tracer_trace_CALL Tracer_trace_RETURN trace_call_def Let_def
      lookup_tracename_def new_tracer_def demo_should_trace_def frame_at_def
      set_tracename_def PyString_Check_def trace_return_def stale_tracer_def)

text \<open>
  C10. On such a failed call the cell at the new depth is not written. When the array
  had room, the array is the one before the event, so a tracename left in that cell by
  an earlier call is still there, and a \<^verbatim>\<open>LINE\<close> event right after the failure
  records its line under that tracename. When the array had to grow, the cell holds
  what the allocator left in it, and a \<^verbatim>\<open>LINE\<close> event records under that.
\<close>

theorem stale_slot_after_failure:
  assumes "Tracer_inv self"
    and "should_trace_cache self (co_filename frame) = None"
    and "should_trace self (co_filename frame) frame = None"
    and "Tracer_trace self frame PyTrace_CALL mem = (rc, self1, effs)"
    and "Tracer_trace self1 frame2 PyTrace_LINE mem2 = (rc2, self2, effs2)"
  shows "(depth self + 1 < tracenames_alloc self \<longrightarrow>
            rc = - 1 \<and> tracenames self1 = tracenames self \<and>
            (\<forall>stale. tracenames self ! nat (depth self + 1) = Some stale \<longrightarrow>
               data self2 (stale, f_lineno frame2) = Some PyNone)) \<and>
         (tracenames_alloc self \<le> depth self + 1 \<longrightarrow>
            (\<forall>cells. mem = Some cells \<longrightarrow>
               rc = - 1 \<and> tracenames self1 ! nat (depth self1) = cells (nat (depth self + 1)) \<and>
               (\<forall>junk. cells (nat (depth self + 1)) = Some junk \<longrightarrow>
                  data self2 (junk, f_lineno frame2) = Some PyNone)))"
proof (intro conjI impI allI)
  assume room: "depth self + 1 < tracenames_alloc self"
  from failed_call_state(1) [OF assms(2,3) room, of mem] assms(4)
  have s1: "self1 = self\<lparr>depth := depth self + 1\<rparr>" and rc: "rc = - 1" by simp_all
  show "rc = - 1" by (rule rc)
  show "tracenames self1 = tracenames self" by (simp add: s1)
  fix stale assume "tracenames self ! nat (depth self + 1) = Some stale"
  with assms(1,5) show "data self2 (stale, f_lineno frame2) = Some PyNone"
    by (auto simp: s1 Tracer_trace_LINE trace_line_def Tracer_inv_def)
next
  fix cells assume full: "tracenames_alloc self \<le> depth self + 1" and mem: "mem = Some cells"
  from failed_call_state(2) [OF assms(2,3) full, of cells] assms(4) mem
  have s1: "self1 = grow_tracenames (self\<lparr>depth := depth self + 1\<rparr>) cells"
    and rc: "rc = - 1" by simp_all
  from assms(1) full have d: "depth self + 1 = tracenames_alloc self"
    and l: "length (tracenames self) = nat (tracenames_alloc self)"
    by (auto simp: Tracer_inv_def)
  show "rc = - 1" by (rule rc)
  from assms(1) have "0 \<le> tracenames_alloc self" by (auto simp: Tracer_inv_def)
  then have n: "nat (tracenames_alloc self + 100) = nat (tracenames_alloc self) + 100"
    by simp
  show slot: "tracenames self1 ! nat (depth self1) = cells (nat (depth self + 1))"
    by (simp add: s1 d l nth_append TRACENAMES_DELTA_def n)
  fix junk assume "cells (nat (depth self + 1)) = Some junk"
  with slot assms(1,5) show "data self2 (junk, f_lineno frame2) = Some PyNone"
    by (auto simp: Tracer_trace_LINE trace_line_def s1 Tracer_inv_def)
qed

theorem stale_slot_after_failure_witness:
  "Tracer_inv stale_tracer \<and>
   should_trace_cache stale_tracer (co_filename (frame_at ''c.py'' 1)) = None \<and>
   should_trace stale_tracer (co_filename (frame_at ''c.py'' 1)) (frame_at ''c.py'' 1) = None \<and>
   depth stale_tracer + 1 < tracenames_alloc stale_tracer \<and>
   tracenames stale_tracer ! nat (depth stale_tracer + 1) = Some (PyString ''a.py'') \<and>
   data (fst (snd (Tracer_trace
           (fst (snd (Tracer_trace stale_tracer (frame_at ''c.py'' 1) PyTrace_CALL None)))
           (frame_at ''c.py'' 7) PyTrace_LINE None)))
     (PyString ''a.py'', 7) = Some PyNone"
proof -
  let ?f = "frame_at ''c.py'' 1" and ?f2 = "frame_at ''c.py'' 7"
  let ?r = "Tracer_trace stale_tracer ?f PyTrace_CALL None"
  let ?r2 = "Tracer_trace (fst (snd ?r)) ?f2 PyTrace_LINE None"
  have i: "Tracer_inv stale_tracer"
    by (simp add: Tracer_inv_def stale_tracer_def new_tracer_def)
  have c: "should_trace_cache stale_tracer (co_filename ?f) = None"
    by (simp add: stale_tracer_def frame_at_def)
  have f: "should_trace stale_tracer (co_filename ?f) ?f = None"
    by (simp add: stale_tracer_def new_tracer_def demo_should_trace_def frame_at_def)
  have room: "depth stale_tracer + 1 < tracenames_alloc stale_tracer"
    by (simp add: stale_tracer_def new_tracer_def)
  have slot: "tracenames stale_tracer ! nat (depth stale_tracer + 1) = Some (PyString ''a.py'')"
    by (simp add: stale_tracer_def new_tracer_def)
  have r: "?r = (fst ?r, fst (snd ?r), snd (snd ?r))" by simp
  have r2: "?r2 = (fst ?r2, fst (snd ?r2), snd (snd ?r2))" by simp
  have l: "f_lineno ?f2 = 7" by (simp add: frame_at_def)
  from stale_slot_after_failure [OF i c f r r2] room slot
  have "data (fst (snd ?r2)) (PyString ''a.py'', f_lineno ?f2) = Some PyNone" by blast
  with i c f room slot l show ?thesis by simp
qed

subsection \<open>Balance\<close>

lemma balance_general:
  "well_nested n (map (\<lambda>ev. fst (snd ev)) evs) \<Longrightarrow> - 1 \<le> depth s \<Longrightarrow> depth s \<le> int n - 1 \<Longrightarrow>
   depth (fst (snd (trace_events s evs))) = - 1"
proof (induction evs arbitrary: n s)
  case Nil
  then show ?case by simp
next
  case (Cons ev evs)
  obtain frame what mem where ev: "ev = (frame, what, mem)" by (cases ev) auto
  obtain rc s1 effs where r: "Tracer_trace s frame what mem = (rc, s1, effs)"
    by (cases "Tracer_trace s frame what mem") auto
  have st: "fst (snd (trace_events s (ev # evs))) = fst (snd (trace_events s1 evs))"
    by (simp add: ev r trace_events_state del: trace_events.simps)
  from Cons.prems(1) ev consider
    (call) "what = PyTrace_CALL" "well_nested (Suc n) (map (\<lambda>ev. fst (snd ev)) evs)"
    | (ret) "what = PyTrace_RETURN" "0 < n" "well_nested (n - 1) (map (\<lambda>ev. fst (snd ev)) evs)"
    by (auto split: if_splits)
  then show ?case
  proof cases
    case call
    from r call(1) have "trace_call s frame mem = (rc, s1, effs)"
      by (simp add: Tracer_trace_CALL)
    then have "depth s1 = depth s \<or> depth s1 = depth s + 1"
      by (rule trace_call_depth)
    with Cons.prems have "- 1 \<le> depth s1" "depth s1 \<le> int (Suc n) - 1" by auto
    from Cons.IH [OF call(2) this] st show ?thesis by simp
  next
    case ret
    from r ret(1) have "s1 = trace_return s" by (simp add: Tracer_trace_RETURN)
    with Cons.prems ret(2) have "- 1 \<le> depth s1" "depth s1 \<le> int (n - 1) - 1"
      by (auto simp: trace_return_def)
    from Cons.IH [OF ret(3) this] st show ?thesis by simp
  qed
qed

text \<open>
  C1. Starting from depth \<open>- 1\<close>, after any properly nested sequence of \<^verbatim>\<open>CALL\<close> and
  \<^verbatim>\<open>RETURN\<close> events, every call matched by one return, the depth is \<open>- 1\<close> again and
  no entry of the array is in use. This holds whatever \<^verbatim>\<open>should_trace\<close> and the
  allocator do during the calls.
\<close>

theorem balanced_calls_and_returns:
  assumes "well_nested 0 (map (\<lambda>ev. fst (snd ev)) evs)" and "depth self = - 1"
  shows "depth (fst (snd (trace_events self evs))) = - 1 \<and>
         depth_stack (fst (snd (trace_events self evs))) = []"
proof -
  from assms have "depth (fst (snd (trace_events self evs))) = - 1"
    by (intro balance_general [of 0]) simp_all
  then show ?thesis by (simp add: depth_stack_def)
qed

theorem balanced_calls_and_returns_witness:
  "well_nested 0 (map (\<lambda>ev. fst (snd ev)) demo_calls) \<and>
   depth (new_tracer demo_should_trace) = - 1 \<and>
   depth (fst (snd (trace_events (new_tracer demo_should_trace) demo_calls))) = - 1 \<and>
   depth_stack (fst (snd (trace_events (new_tracer demo_should_trace) demo_calls))) = []"
proof -
  have w: "well_nested 0 (map (\<lambda>ev. fst (snd ev)) demo_calls)"
    by (simp add: demo_calls_def PyTrace_defs)
  have d: "depth (new_tracer demo_should_trace) = - 1" by (simp add: new_tracer_def)
  from balanced_calls_and_returns [OF w d] w d show ?thesis by simp
qed

subsection \<open>A call that gets to the cache\<close>

text \<open>When the array has room or grows, the call case arrives at the lookup in a struct
  with the depth incremented, the old cells in place, and everything else as it was.\<close>

lemma trace_call_lookup:
  assumes "depth self + 1 < tracenames_alloc self \<or> mem \<noteq> None"
  obtains s0 where "Tracer_trace self frame PyTrace_CALL mem = lookup_tracename s0 frame"
    and "depth s0 = depth self + 1"
    and "should_trace_cache s0 = should_trace_cache self"
    and "should_trace s0 = should_trace self"
    and "data s0 = data self"
    and "Tracer_inv self \<longrightarrow> Tracer_inv s0"
proof (cases "depth self + 1 < tracenames_alloc self")
  case True
  show ?thesis
  proof (rule that [of "self\<lparr>depth := depth self + 1\<rparr>"])
    show "Tracer_trace self frame PyTrace_CALL mem =
        lookup_tracename (self\<lparr>depth := depth self + 1\<rparr>) frame"
      using True by (simp add: Tracer_trace_CALL trace_call_def Let_def)
    show "Tracer_inv self \<longrightarrow> Tracer_inv (self\<lparr>depth := depth self + 1\<rparr>)"
      using True by (simp add: Tracer_inv_def)
  qed simp_all
next
  case False
  with assms obtain cells where m: "mem = Some cells" by auto
  show ?thesis
  proof (rule that [of "grow_tracenames (self\<lparr>depth := depth self + 1\<rparr>) cells"])
    show "Tracer_trace self frame PyTrace_CALL mem =
        lookup_tracename (grow_tracenames (self\<lparr>depth := depth self + 1\<rparr>) cells) frame"
      using False m by (simp add: Tracer_trace_CALL trace_call_def Let_def)
    show "Tracer_inv self \<longrightarrow>
        Tracer_inv (grow_tracenames (self\<lparr>depth := depth self + 1\<rparr>) cells)"
    proof
      assume "Tracer_inv self"
      with False show "Tracer_inv (grow_tracenames (self\<lparr>depth := depth self + 1\<rparr>) cells)"
        by (intro grow_tracenames_inv) (auto simp: Tracer_inv_def)
    qed
  qed simp_all
qed

lemma set_tracename_slot:
  "0 \<le> depth s \<Longrightarrow> nat (depth s) < length (tracenames s) \<Longrightarrow>
   tracenames (fst (set_tracename s t)) ! nat (depth s) = cell_for t"
  by (simp add: set_tracename_def cell_for_def)

lemma set_tracename_slot_inv:
  "Tracer_inv s \<Longrightarrow> 0 \<le> depth s \<Longrightarrow>
   tracenames (fst (set_tracename s t)) ! nat (depth s) = cell_for t"
  by (rule set_tracename_slot) (auto simp: Tracer_inv_def)

lemma cached_call:
  assumes "Tracer_inv self"
    and "should_trace_cache self (co_filename frame) = Some cached"
    and "depth self + 1 < tracenames_alloc self \<or> mem \<noteq> None"
  shows "fst (Tracer_trace self frame PyTrace_CALL mem) = 0"
    and "snd (snd (Tracer_trace self frame PyTrace_CALL mem)) =
           [Stored (depth self + 1) (cell_for cached)]"
    and "depth (fst (snd (Tracer_trace self frame PyTrace_CALL mem))) = depth self + 1"
    and "should_trace_cache (fst (snd (Tracer_trace self frame PyTrace_CALL mem))) =
           should_trace_cache self"
    and "tracenames (fst (snd (Tracer_trace self frame PyTrace_CALL mem))) ! nat (depth self + 1) =
           cell_for cached"
proof -
  from assms(3) obtain s0 where s0: "Tracer_trace self frame PyTrace_CALL mem = lookup_tracename s0 frame"
    "depth s0 = depth self + 1" "should_trace_cache s0 = should_trace_cache self"
    "Tracer_inv self \<longrightarrow> Tracer_inv s0"
    by (rule trace_call_lookup [of self mem frame])
  from assms(2) s0(3)
  have l: "lookup_tracename s0 frame = (0, fst (set_tracename s0 cached), snd (set_tracename s0 cached))"
    by (simp add: lookup_tracename_def Let_def)
  from assms(1) s0(2,4) have i: "Tracer_inv s0" "0 \<le> depth s0" by (auto simp: Tracer_inv_def)
  show "fst (Tracer_trace self frame PyTrace_CALL mem) = 0" by (simp add: s0(1) l)
  show "snd (snd (Tracer_trace self frame PyTrace_CALL mem)) =
      [Stored (depth self + 1) (cell_for cached)]"
    by (simp add: s0(1,2) l set_tracename_stored cell_for_def)
  show "depth (fst (snd (Tracer_trace self frame PyTrace_CALL mem))) = depth self + 1"
    by (simp add: s0(1,2) l)
  show "should_trace_cache (fst (snd (Tracer_trace self frame PyTrace_CALL mem))) =
      should_trace_cache self"
    by (simp add: s0(1,3) l)
  from set_tracename_slot_inv [OF i, of cached]
  show "tracenames (fst (snd (Tracer_trace self frame PyTrace_CALL mem))) ! nat (depth self + 1) =
      cell_for cached"
    by (simp add: s0(1,2) l)
qed

lemma answered_call:
  assumes "Tracer_inv self"
    and "should_trace_cache self (co_filename frame) = None"
    and "should_trace self (co_filename frame) frame = Some result"
    and "depth self + 1 < tracenames_alloc self \<or> mem \<noteq> None"
  shows "fst (Tracer_trace self frame PyTrace_CALL mem) = 0"
    and "snd (snd (Tracer_trace self frame PyTrace_CALL mem)) =
           [Asked (co_filename frame) (Some result), Cached (co_filename frame) result,
            Stored (depth self + 1) (cell_for result)]"
    and "depth (fst (snd (Tracer_trace self frame PyTrace_CALL mem))) = depth self + 1"
    and "should_trace_cache (fst (snd (Tracer_trace self frame PyTrace_CALL mem))) =
           (should_trace_cache self)(co_filename frame \<mapsto> result)"
    and "tracenames (fst (snd (Tracer_trace self frame PyTrace_CALL mem))) ! nat (depth self + 1) =
           cell_for result"
proof -
  from assms(4) obtain s0 where s0: "Tracer_trace self frame PyTrace_CALL mem = lookup_tracename s0 frame"
    "depth s0 = depth self + 1" "should_trace_cache s0 = should_trace_cache self"
    "should_trace s0 = should_trace self" "Tracer_inv self \<longrightarrow> Tracer_inv s0"
    by (rule trace_call_lookup [of self mem frame])
  let ?c = "s0\<lparr>should_trace_cache := (should_trace_cache s0)(co_filename frame \<mapsto> result)\<rparr>"
  from assms(2,3) s0(3,4)
  have l: "lookup_tracename s0 frame =
      (0, fst (set_tracename ?c result),
       [Asked (co_filename frame) (Some result), Cached (co_filename frame) result] @
       snd (set_tracename ?c result))"
    by (simp add: lookup_tracename_def Let_def)
  from assms(1) s0(2,5) have i: "Tracer_inv ?c" "0 \<le> depth ?c" by (auto simp: Tracer_inv_def)
  show "fst (Tracer_trace self frame PyTrace_CALL mem) = 0" by (simp add: s0(1) l)
  show "snd (snd (Tracer_trace self frame PyTrace_CALL mem)) =
      [Asked (co_filename frame) (Some result), Cached (co_filename frame) result,
       Stored (depth self + 1) (cell_for result)]"
    by (simp add: s0(1,2) l set_tracename_stored cell_for_def)
  show "depth (fst (snd (Tracer_trace self frame PyTrace_CALL mem))) = depth self + 1"
    by (simp add: s0(1,2) l)
  show "should_trace_cache (fst (snd (Tracer_trace self frame PyTrace_CALL mem))) =
      (should_trace_cache self)(co_filename frame \<mapsto> result)"
    by (simp add: s0(1,3) l)
  from set_tracename_slot_inv [OF i, of result]
  show "tracenames (fst (snd (Tracer_trace self frame PyTrace_CALL mem))) ! nat (depth self + 1) =
      cell_for result"
    by (simp add: s0(1,2) l)
qed

lemma missed_call_asks:
  assumes "should_trace_cache self (co_filename frame) = None"
    and "depth self + 1 < tracenames_alloc self \<or> mem \<noteq> None"
  shows "hd (snd (snd (Tracer_trace self frame PyTrace_CALL mem))) =
           Asked (co_filename frame) (should_trace self (co_filename frame) frame)"
    and "asked_files (snd (snd (Tracer_trace self frame PyTrace_CALL mem))) = [co_filename frame]"
proof -
  from assms(2) obtain s0 where s0: "Tracer_trace self frame PyTrace_CALL mem = lookup_tracename s0 frame"
    "should_trace_cache s0 = should_trace_cache self" "should_trace s0 = should_trace self"
    by (rule trace_call_lookup [of self mem frame])
  from assms(1) s0(2,3)
  show "hd (snd (snd (Tracer_trace self frame PyTrace_CALL mem))) =
      Asked (co_filename frame) (should_trace self (co_filename frame) frame)"
    by (simp add: s0(1) lookup_tracename_def Let_def split: option.splits)
  from assms(1) s0(2,3)
  show "asked_files (snd (snd (Tracer_trace self frame PyTrace_CALL mem))) = [co_filename frame]"
    by (simp add: s0(1) lookup_tracename_def Let_def set_tracename_stored split: option.splits)
qed

subsection \<open>Memoization of should_trace\<close>

lemma asked_files_append [simp]: "asked_files (xs @ ys) = asked_files xs @ asked_files ys"
  by (induction xs rule: asked_files.induct) simp_all

lemma failed_files_append [simp]: "failed_files (xs @ ys) = failed_files xs @ failed_files ys"
  by (induction xs rule: failed_files.induct) simp_all

lemma distinct_asked_files:
  "never_asked_again effs \<Longrightarrow> failed_files effs = [] \<Longrightarrow> distinct (asked_files effs)"
  by (induction effs rule: never_asked_again.induct) simp_all

lemma never_asked_again_quiet:
  "asked_files xs = [] \<Longrightarrow> never_asked_again (xs @ ys) = never_asked_again ys"
  by (induction xs rule: never_asked_again.induct) simp_all

lemma lookup_tracename_effects:
  assumes "lookup_tracename s frame = (rc, s', effs)"
  shows "(asked_files effs = [] \<and> should_trace_cache s' = should_trace_cache s) \<or>
         (\<exists>f. effs = [Asked f None] \<and> should_trace_cache s f = None \<and>
              should_trace_cache s' = should_trace_cache s) \<or>
         (\<exists>f r rest. effs = Asked f (Some r) # rest \<and> asked_files rest = [] \<and>
              should_trace_cache s f = None \<and>
              should_trace_cache s' = (should_trace_cache s)(f \<mapsto> r))"
  by (rule lookup_tracename_cases [of s frame])
     (use assms in \<open>auto simp: set_tracename_stored\<close>)

lemma trace_call_effects:
  assumes "trace_call s frame mem = (rc, s', effs)"
  shows "(asked_files effs = [] \<and> should_trace_cache s' = should_trace_cache s) \<or>
         (\<exists>f. effs = [Asked f None] \<and> should_trace_cache s f = None \<and>
              should_trace_cache s' = should_trace_cache s) \<or>
         (\<exists>f r rest. effs = Asked f (Some r) # rest \<and> asked_files rest = [] \<and>
              should_trace_cache s f = None \<and>
              should_trace_cache s' = (should_trace_cache s)(f \<mapsto> r))"
proof (cases "tracenames_alloc s \<le> depth s + 1")
  case True
  show ?thesis
  proof (cases mem)
    case None
    with True assms show ?thesis by (simp add: trace_call_def Let_def)
  next
    case (Some cells)
    with True assms
    have "lookup_tracename (grow_tracenames (s\<lparr>depth := depth s + 1\<rparr>) cells) frame = (rc, s', effs)"
      by (simp add: trace_call_def Let_def)
    from lookup_tracename_effects [OF this] show ?thesis by simp
  qed
next
  case False
  with assms have "lookup_tracename (s\<lparr>depth := depth s + 1\<rparr>) frame = (rc, s', effs)"
    by (simp add: trace_call_def Let_def)
  from lookup_tracename_effects [OF this] show ?thesis by simp
qed

lemma Tracer_trace_effects:
  assumes "Tracer_trace s frame what mem = (rc, s', effs)"
  shows "(asked_files effs = [] \<and> should_trace_cache s' = should_trace_cache s) \<or>
         (\<exists>f. effs = [Asked f None] \<and> should_trace_cache s f = None \<and>
              should_trace_cache s' = should_trace_cache s) \<or>
         (\<exists>f r rest. effs = Asked f (Some r) # rest \<and> asked_files rest = [] \<and>
              should_trace_cache s f = None \<and>
              should_trace_cache s' = (should_trace_cache s)(f \<mapsto> r))"
proof (cases what rule: what_cases)
  case 1
  with assms have "trace_call s frame mem = (rc, s', effs)" by (simp add: Tracer_trace_CALL)
  from trace_call_effects [OF this] show ?thesis .
next
  case 2
  with assms show ?thesis by (auto simp: Tracer_trace_RETURN trace_return_def)
next
  case 3
  with assms show ?thesis
    by (auto simp: Tracer_trace_LINE trace_line_def split: option.splits)
next
  case 4
  with assms show ?thesis
    by (auto simp: Tracer_trace_EXCEPTION trace_return_def split: if_splits)
next
  case 5
  with assms show ?thesis by (simp add: Tracer_trace_other)
qed

lemma cached_never_asked:
  "should_trace_cache s f = Some r \<Longrightarrow> f \<notin> set (asked_files (snd (snd (trace_events s evs))))"
proof (induction evs arbitrary: s r)
  case Nil
  then show ?case by simp
next
  case (Cons ev evs)
  obtain frame what mem where ev: "ev = (frame, what, mem)" by (cases ev) auto
  obtain rc s1 effs where t: "Tracer_trace s frame what mem = (rc, s1, effs)"
    by (cases "Tracer_trace s frame what mem") auto
  from Tracer_trace_effects [OF t] Cons.prems
  have "f \<notin> set (asked_files effs)" and "\<exists>r'. should_trace_cache s1 f = Some r'"
    by auto
  with Cons.IH [of s1] show ?case
    by (auto simp: ev t trace_events_effects simp del: trace_events.simps)
qed

lemma never_asked_again_run:
  "never_asked_again (snd (snd (trace_events s evs)))"
proof (induction evs arbitrary: s)
  case Nil
  then show ?case by simp
next
  case (Cons ev evs)
  obtain frame what mem where ev: "ev = (frame, what, mem)" by (cases ev) auto
  obtain rc s1 effs where t: "Tracer_trace s frame what mem = (rc, s1, effs)"
    by (cases "Tracer_trace s frame what mem") auto
  let ?rest = "snd (snd (trace_events s1 evs))"
  have e: "snd (snd (trace_events s (ev # evs))) = effs @ ?rest"
    by (simp add: ev t trace_events_effects del: trace_events.simps)
  have rest: "never_asked_again ?rest" by (rule Cons.IH)
  have "never_asked_again (effs @ ?rest)"
  proof -
    from Tracer_trace_effects [OF t] consider
      (quiet) "asked_files effs = []"
      | (failed) f where "effs = [Asked f None]"
      | (answered) f r more where "effs = Asked f (Some r) # more" "asked_files more = []"
          "should_trace_cache s1 f = Some r"
      by auto
    then show ?thesis
    proof cases
      case quiet
      then show ?thesis using rest by (simp add: never_asked_again_quiet)
    next
      case failed
      then show ?thesis using rest by simp
    next
      case answered
      from cached_never_asked [OF answered(3)] answered(1,2) rest show ?thesis
        by (simp add: never_asked_again_quiet)
    qed
  qed
  with e show ?case by simp
qed

lemma cache_hit_asks_nothing:
  "should_trace_cache self (co_filename frame) = Some cached \<Longrightarrow>
   asked_files (snd (snd (Tracer_trace self frame PyTrace_CALL mem))) = []"
  by (simp add: Tracer_trace_CALL trace_call_def Let_def lookup_tracename_def
      set_tracename_stored split: option.splits)

lemma failed_call_cache:
  assumes "should_trace_cache self (co_filename frame) = None"
    and "should_trace self (co_filename frame) frame = None"
    and "depth self + 1 < tracenames_alloc self \<or> mem \<noteq> None"
  shows "should_trace_cache (fst (snd (Tracer_trace self frame PyTrace_CALL mem))) =
           should_trace_cache self"
proof (cases "depth self + 1 < tracenames_alloc self")
  case True
  from failed_call_state(1) [OF assms(1,2) True, of mem] show ?thesis by simp
next
  case False
  with assms(3) obtain cells where "mem = Some cells" by auto
  with failed_call_state(2) [OF assms(1,2), of cells] False show ?thesis by simp
qed

text \<open>
  C3, as the code has it. Over any sequence of events, from any state: once a call of
  \<^verbatim>\<open>should_trace\<close> for a filename has returned a result, \<^verbatim>\<open>should_trace\<close> is not
  called for that filename again; it is never called for a filename that is in the
  cache at the start; so when no call of \<^verbatim>\<open>should_trace\<close> fails, it is called at most
  once per filename. A \<^verbatim>\<open>CALL\<close> event for a cached filename does not call
  \<^verbatim>\<open>should_trace\<close>, and when it gets to the cache (the array has room or grows, in a
  state with \<open>Tracer_inv\<close>) it returns 0, leaves the cache as it is and writes into the
  cell at the new depth what the cached object gives: the object if it is a string,
  \<^verbatim>\<open>NULL\<close> otherwise. A \<^verbatim>\<open>CALL\<close> event for a filename that is not in the cache, when it
  gets to the cache, calls \<^verbatim>\<open>should_trace\<close> for it, once and first of all; if that call
  fails the filename is still not in the cache afterwards.
\<close>

theorem should_trace_memoized:
  "never_asked_again (snd (snd (trace_events self evs))) \<and>
   (\<forall>f \<in> dom (should_trace_cache self). f \<notin> set (asked_files (snd (snd (trace_events self evs))))) \<and>
   (failed_files (snd (snd (trace_events self evs))) = [] \<longrightarrow>
      distinct (asked_files (snd (snd (trace_events self evs))))) \<and>
   (should_trace_cache self (co_filename frame) = Some cached \<longrightarrow>
      asked_files (snd (snd (Tracer_trace self frame PyTrace_CALL mem))) = [] \<and>
      (Tracer_inv self \<and> (depth self + 1 < tracenames_alloc self \<or> mem \<noteq> None) \<longrightarrow>
         fst (Tracer_trace self frame PyTrace_CALL mem) = 0 \<and>
         snd (snd (Tracer_trace self frame PyTrace_CALL mem)) =
           [Stored (depth self + 1) (cell_for cached)] \<and>
         depth (fst (snd (Tracer_trace self frame PyTrace_CALL mem))) = depth self + 1 \<and>
         should_trace_cache (fst (snd (Tracer_trace self frame PyTrace_CALL mem))) =
           should_trace_cache self \<and>
         tracenames (fst (snd (Tracer_trace self frame PyTrace_CALL mem))) ! nat (depth self + 1) =
           cell_for cached)) \<and>
   (should_trace_cache self (co_filename frame) = None \<and>
    (depth self + 1 < tracenames_alloc self \<or> mem \<noteq> None) \<longrightarrow>
      hd (snd (snd (Tracer_trace self frame PyTrace_CALL mem))) =
        Asked (co_filename frame) (should_trace self (co_filename frame) frame) \<and>
      asked_files (snd (snd (Tracer_trace self frame PyTrace_CALL mem))) = [co_filename frame] \<and>
      (should_trace self (co_filename frame) frame = None \<longrightarrow>
         should_trace_cache (fst (snd (Tracer_trace self frame PyTrace_CALL mem)))
           (co_filename frame) = None))"
proof (intro conjI impI ballI)
  show "never_asked_again (snd (snd (trace_events self evs)))"
    by (rule never_asked_again_run)
  show "f \<notin> set (asked_files (snd (snd (trace_events self evs))))"
    if "f \<in> dom (should_trace_cache self)" for f
    using that cached_never_asked [of self f _ evs] by (auto simp: dom_def)
  show "distinct (asked_files (snd (snd (trace_events self evs))))"
    if "failed_files (snd (snd (trace_events self evs))) = []"
    using never_asked_again_run that by (rule distinct_asked_files)
next
  assume h: "should_trace_cache self (co_filename frame) = Some cached"
  then show "asked_files (snd (snd (Tracer_trace self frame PyTrace_CALL mem))) = []"
    by (rule cache_hit_asks_nothing)
  assume "Tracer_inv self \<and> (depth self + 1 < tracenames_alloc self \<or> mem \<noteq> None)"
  then have i: "Tracer_inv self" and r: "depth self + 1 < tracenames_alloc self \<or> mem \<noteq> None"
    by simp_all
  show "fst (Tracer_trace self frame PyTrace_CALL mem) = 0"
    by (rule cached_call(1) [OF i h r])
  show "snd (snd (Tracer_trace self frame PyTrace_CALL mem)) =
      [Stored (depth self + 1) (cell_for cached)]"
    by (rule cached_call(2) [OF i h r])
  show "depth (fst (snd (Tracer_trace self frame PyTrace_CALL mem))) = depth self + 1"
    by (rule cached_call(3) [OF i h r])
  show "should_trace_cache (fst (snd (Tracer_trace self frame PyTrace_CALL mem))) =
      should_trace_cache self"
    by (rule cached_call(4) [OF i h r])
  show "tracenames (fst (snd (Tracer_trace self frame PyTrace_CALL mem))) ! nat (depth self + 1) =
      cell_for cached"
    by (rule cached_call(5) [OF i h r])
next
  assume "should_trace_cache self (co_filename frame) = None \<and>
    (depth self + 1 < tracenames_alloc self \<or> mem \<noteq> None)"
  then have m: "should_trace_cache self (co_filename frame) = None"
    and r: "depth self + 1 < tracenames_alloc self \<or> mem \<noteq> None"
    by simp_all
  show "hd (snd (snd (Tracer_trace self frame PyTrace_CALL mem))) =
      Asked (co_filename frame) (should_trace self (co_filename frame) frame)"
    by (rule missed_call_asks(1) [OF m r])
  show "asked_files (snd (snd (Tracer_trace self frame PyTrace_CALL mem))) = [co_filename frame]"
    by (rule missed_call_asks(2) [OF m r])
  assume "should_trace self (co_filename frame) frame = None"
  from failed_call_cache [OF m this r] m
  show "should_trace_cache (fst (snd (Tracer_trace self frame PyTrace_CALL mem)))
      (co_filename frame) = None"
    by simp
qed

lemma memo_events_failed:
  "failed_files (snd (snd (trace_events cached_tracer memo_events))) = []"
  by (simp add: memo_events_def cached_tracer_def new_tracer_def demo_should_trace_def
      frame_at_def Tracer_trace_CALL Tracer_trace_RETURN trace_call_def Let_def
      lookup_tracename_def set_tracename_def PyString_Check_def trace_return_def)

lemma failed_tracer_reached:
  "Tracer_trace (new_tracer demo_should_trace) (frame_at ''c.py'' 1) PyTrace_CALL None =
     (- 1, failed_tracer, [Asked ''c.py'' None])"
  by (simp add: Tracer_trace_CALL trace_call_def Let_def lookup_tracename_def new_tracer_def
      demo_should_trace_def frame_at_def failed_tracer_def)

theorem should_trace_memoized_witness:
  "''a.py'' \<in> dom (should_trace_cache cached_tracer) \<and>
   ''a.py'' \<notin> set (asked_files (snd (snd (trace_events cached_tracer memo_events)))) \<and>
   failed_files (snd (snd (trace_events cached_tracer memo_events))) = [] \<and>
   distinct (asked_files (snd (snd (trace_events cached_tracer memo_events)))) \<and>
   never_asked_again (snd (snd (trace_events cached_tracer memo_events))) \<and>
   should_trace_cache cached_tracer (co_filename (frame_at ''a.py'' 1)) = Some (PyString ''a.py'') \<and>
   Tracer_inv cached_tracer \<and>
   depth cached_tracer + 1 < tracenames_alloc cached_tracer \<and>
   tracenames cached_tracer ! 0 = None \<and>
   fst (Tracer_trace cached_tracer (frame_at ''a.py'' 1) PyTrace_CALL None) = 0 \<and>
   asked_files (snd (snd (Tracer_trace cached_tracer (frame_at ''a.py'' 1) PyTrace_CALL None))) = [] \<and>
   tracenames (fst (snd (Tracer_trace cached_tracer (frame_at ''a.py'' 1) PyTrace_CALL None))) ! 0 =
     Some (PyString ''a.py'') \<and>
   should_trace_cache failed_tracer (co_filename (frame_at ''c.py'' 1)) = None \<and>
   depth failed_tracer + 1 < tracenames_alloc failed_tracer \<and>
   should_trace failed_tracer (co_filename (frame_at ''c.py'' 1)) (frame_at ''c.py'' 1) = None \<and>
   asked_files (snd (snd (Tracer_trace failed_tracer (frame_at ''c.py'' 1) PyTrace_CALL None))) =
     [''c.py''] \<and>
   should_trace_cache (fst (snd (Tracer_trace failed_tracer (frame_at ''c.py'' 1) PyTrace_CALL None)))
     ''c.py'' = None"
proof -
  let ?a = "frame_at ''a.py'' 1" and ?c = "frame_at ''c.py'' 1"
  let ?run = "snd (snd (trace_events cached_tracer memo_events))"
  let ?hit = "Tracer_trace cached_tracer ?a PyTrace_CALL None"
  let ?miss = "Tracer_trace failed_tracer ?c PyTrace_CALL None"
  have c: "''a.py'' \<in> dom (should_trace_cache cached_tracer)"
    by (simp add: cached_tracer_def)
  have f: "failed_files ?run = []" by (rule memo_events_failed)
  have h: "should_trace_cache cached_tracer (co_filename ?a) = Some (PyString ''a.py'')"
    by (simp add: cached_tracer_def frame_at_def)
  have i: "Tracer_inv cached_tracer"
    by (simp add: Tracer_inv_def cached_tracer_def new_tracer_def)
  have r: "depth cached_tracer + 1 < tracenames_alloc cached_tracer"
    by (simp add: cached_tracer_def new_tracer_def)
  have n: "tracenames cached_tracer ! 0 = None"
    by (simp add: cached_tracer_def new_tracer_def)
  have d: "nat (depth cached_tracer + 1) = 0" by (simp add: cached_tracer_def new_tracer_def)
  have cell: "cell_for (PyString ''a.py'') = Some (PyString ''a.py'')"
    by (simp add: cell_for_def PyString_Check_def)
  have m: "should_trace_cache failed_tracer (co_filename ?c) = None"
    by (simp add: failed_tracer_def new_tracer_def)
  have r': "depth failed_tracer + 1 < tracenames_alloc failed_tracer"
    by (simp add: failed_tracer_def new_tracer_def)
  have x: "should_trace failed_tracer (co_filename ?c) ?c = None"
    by (simp add: failed_tracer_def new_tracer_def demo_should_trace_def frame_at_def)
  have fc: "co_filename ?c = ''c.py''" by (simp add: frame_at_def)
  note run = should_trace_memoized [of cached_tracer memo_events ?a "PyString ''a.py''" None]
  from run c have 1: "''a.py'' \<notin> set (asked_files ?run)" by blast
  from run f have 2: "distinct (asked_files ?run)" by blast
  from run have 3: "never_asked_again ?run" by blast
  from run h i r have 4: "fst ?hit = 0" "asked_files (snd (snd ?hit)) = []"
    "tracenames (fst (snd ?hit)) ! nat (depth cached_tracer + 1) = cell_for (PyString ''a.py'')"
    by blast+
  from 4(3) have 5: "tracenames (fst (snd ?hit)) ! 0 = Some (PyString ''a.py'')"
    by (simp only: d cell)
  note again = should_trace_memoized [of failed_tracer "[]" ?c _ None]
  from again m r' x have "asked_files (snd (snd ?miss)) = [co_filename ?c]"
    "should_trace_cache (fst (snd ?miss)) (co_filename ?c) = None"
    by blast+
  then have 6: "asked_files (snd (snd ?miss)) = [''c.py'']"
    "should_trace_cache (fst (snd ?miss)) ''c.py'' = None"
    by (simp_all only: fc)
  from c 1 f 2 3 h i r n 4(1,2) 5 m r' x 6 show ?thesis by blast
qed

text \<open>
  C3 as stated, at most once per filename over any sequence of events, does not hold: a
  call of \<^verbatim>\<open>should_trace\<close> that fails leaves nothing in the cache, and the next
  \<^verbatim>\<open>CALL\<close> event for the file that gets to the cache asks again.
\<close>

theorem should_trace_asked_twice:
  "asked_files (snd (snd (trace_events (new_tracer demo_should_trace) failing_events))) =
     [''c.py'', ''c.py'']"
  by (simp add: failing_events_def new_tracer_def demo_should_trace_def
      frame_at_def Tracer_trace_CALL trace_call_def Let_def lookup_tracename_def)

subsection \<open>From the result of should_trace to the stored decision\<close>

text \<open>
  C4, as the code has it. On a \<^verbatim>\<open>CALL\<close> event for a file that is not in the cache,
  when \<^verbatim>\<open>should_trace\<close> returns a result (and the array had room or could grow), in a
  state with \<open>Tracer_inv\<close>: the handler returns 0; what it did is, in this order, one
  call of \<^verbatim>\<open>should_trace\<close>, the store of the result itself into the cache under the
  filename, and the write of the cell at the new depth; the cell holds the result if it
  is a string (\<^verbatim>\<open>PyString_Check\<close>) and \<^verbatim>\<open>NULL\<close> if it is anything else.
\<close>

theorem decision_mapping:
  assumes "Tracer_inv self"
    and "should_trace_cache self (co_filename frame) = None"
    and "should_trace self (co_filename frame) frame = Some result"
    and "depth self + 1 < tracenames_alloc self \<or> mem \<noteq> None"
    and "Tracer_trace self frame PyTrace_CALL mem = (rc, self', effs)"
  shows "rc = 0 \<and>
         effs = [Asked (co_filename frame) (Some result), Cached (co_filename frame) result,
                 Stored (depth self + 1)
                   (if PyString_Check result then Some result else None)] \<and>
         depth self' = depth self + 1 \<and>
         should_trace_cache self' = (should_trace_cache self)(co_filename frame \<mapsto> result) \<and>
         tracenames self' ! nat (depth self') =
           (if PyString_Check result then Some result else None)"
  using answered_call [OF assms(1-4)] assms(5) by (simp add: cell_for_def)

theorem decision_mapping_witness:
  "Tracer_inv (new_tracer demo_should_trace) \<and>
   should_trace_cache (new_tracer demo_should_trace) (co_filename (frame_at ''a.py'' 1)) = None \<and>
   should_trace (new_tracer demo_should_trace) (co_filename (frame_at ''a.py'' 1))
     (frame_at ''a.py'' 1) = Some (PyString ''a.py'') \<and>
   depth (new_tracer demo_should_trace) + 1 < tracenames_alloc (new_tracer demo_should_trace) \<and>
   fst (Tracer_trace (new_tracer demo_should_trace) (frame_at ''a.py'' 1) PyTrace_CALL None) = 0 \<and>
   snd (snd (Tracer_trace (new_tracer demo_should_trace) (frame_at ''a.py'' 1) PyTrace_CALL None)) =
     [Asked ''a.py'' (Some (PyString ''a.py'')), Cached ''a.py'' (PyString ''a.py''),
      Stored 0 (Some (PyString ''a.py''))] \<and>
   tracenames (fst (snd (Tracer_trace (new_tracer demo_should_trace) (frame_at ''a.py'' 1)
     PyTrace_CALL None))) ! 0 = Some (PyString ''a.py'') \<and>
   should_trace_cache (fst (snd (Tracer_trace (new_tracer demo_should_trace)
     (frame_at ''a.py'' 1) PyTrace_CALL None))) ''a.py'' = Some (PyString ''a.py'')"
proof -
  let ?s = "new_tracer demo_should_trace" and ?f = "frame_at ''a.py'' 1"
  let ?r = "Tracer_trace ?s ?f PyTrace_CALL None"
  have i: "Tracer_inv ?s" by (simp add: Tracer_inv_def new_tracer_def)
  have c: "should_trace_cache ?s (co_filename ?f) = None" by (simp add: new_tracer_def)
  have f: "should_trace ?s (co_filename ?f) ?f = Some (PyString ''a.py'')"
    by (simp add: new_tracer_def demo_should_trace_def frame_at_def)
  have a: "depth ?s + 1 < tracenames_alloc ?s" by (simp add: new_tracer_def)
  then have a': "depth ?s + 1 < tracenames_alloc ?s \<or> (None :: allocation) \<noteq> None" by simp
  have r: "?r = (fst ?r, fst (snd ?r), snd (snd ?r))" by simp
  have d: "depth ?s = - 1" by (simp add: new_tracer_def)
  have n: "co_filename ?f = ''a.py''" by (simp add: frame_at_def)
  note t = decision_mapping [OF i c f a' r]
  from t have "fst ?r = 0" by blast
  moreover from t have "snd (snd ?r) =
      [Asked (co_filename ?f) (Some (PyString ''a.py'')), Cached (co_filename ?f) (PyString ''a.py''),
       Stored (depth ?s + 1)
         (if PyString_Check (PyString ''a.py'') then Some (PyString ''a.py'') else None)]"
    by blast
  then have "snd (snd ?r) =
      [Asked ''a.py'' (Some (PyString ''a.py'')), Cached ''a.py'' (PyString ''a.py''),
       Stored 0 (Some (PyString ''a.py''))]"
    by (simp add: n d PyString_Check_def)
  moreover from t have "depth (fst (snd ?r)) = depth ?s + 1" by blast
  then have "nat (depth (fst (snd ?r))) = 0" by (simp add: d)
  with t have "tracenames (fst (snd ?r)) ! 0 = Some (PyString ''a.py'')"
    by (simp add: PyString_Check_def)
  moreover from t have "should_trace_cache (fst (snd ?r)) =
      (should_trace_cache ?s)(co_filename ?f \<mapsto> PyString ''a.py'')" by blast
  then have "should_trace_cache (fst (snd ?r)) ''a.py'' = Some (PyString ''a.py'')"
    by (simp only: n fun_upd_same)
  ultimately show ?thesis using i c f a by blast
qed

text \<open>
  C4 as stated does not hold. The empty string is falsy, and it is stored as the
  tracename to trace under; the number 7 is neither null nor falsy, and it is stored as
  \<^verbatim>\<open>NULL\<close>, overwriting what the cell held.
\<close>

theorem decision_mapping_differs:
  "spec_TraceDecision (PyString []) = None \<and>
   tracenames (fst (snd (Tracer_trace (new_tracer odd_should_trace) (frame_at ''e.py'' 1)
      PyTrace_CALL None))) ! 0 = Some (PyString []) \<and>
   spec_TraceDecision (PyInt 7) = Some (PyInt 7) \<and>
   tracenames odd_tracer ! 0 = Some (PyString ''a.py'') \<and>
   tracenames (fst (snd (Tracer_trace odd_tracer (frame_at ''n.py'' 1) PyTrace_CALL None))) ! 0 =
     None"
  by (simp add: spec_TraceDecision_def spec_falsy_def new_tracer_def odd_should_trace_def
      frame_at_def Tracer_trace_CALL trace_call_def Let_def lookup_tracename_def
      set_tracename_def PyString_Check_def odd_tracer_def stale_tracer_def)

subsection \<open>The specification's example run\<close>

lemma spec_scenario_run:
  "depth (fst (snd (trace_events (new_tracer demo_should_trace) spec_scenario))) = - 1"
  "data (fst (snd (trace_events (new_tracer demo_should_trace) spec_scenario))) =
     [(PyString ''a.py'', 10) \<mapsto> PyNone, (PyString ''a.py'', 11) \<mapsto> PyNone]"
  "snd (snd (trace_events (new_tracer demo_should_trace) spec_scenario)) =
     [Asked ''a.py'' (Some (PyString ''a.py'')), Cached ''a.py'' (PyString ''a.py''),
      Stored 0 (Some (PyString ''a.py'')),
      Asked ''b.py'' (Some (PyBool False)), Cached ''b.py'' (PyBool False), Stored 1 None]"
  "fst (trace_events (new_tracer demo_should_trace) spec_scenario) = [0, 0, 0, 0, 0, 0, 0]"
  by (simp_all add: spec_scenario_def new_tracer_def demo_should_trace_def
      frame_at_def Tracer_trace_CALL Tracer_trace_RETURN Tracer_trace_LINE trace_call_def Let_def
      lookup_tracename_def set_tracename_def PyString_Check_def trace_return_def trace_line_def)

end
